theory Spec2Isabelle
  imports Complex_Main
begin

section \<open>Python values, objects and the interpreter's services\<close>

text \<open>
  The program is \<^verbatim>\<open>Tigger/bin/tigger_tag.py\<close>: its \<^verbatim>\<open>main\<close> reads a sky model and
  then treats every remaining command-line argument as a selection or as a tagging
  command. The embedding follows \<^verbatim>\<open>main\<close> from the argument loop to the final save.

  A string is a list of characters, one character per code point below 256. A Python
  value is \<open>None\<close>, a bool, an int, a float, a complex number, a string, or a reference to
  an object. The type \<open>'f\<close> stands for Python's floats: their parsing, arithmetic and
  comparison belong to the interpreter and are taken from a \<open>runtime\<close> record, so every
  result below holds for whatever the interpreter computes.
\<close>

datatype 'f pyval =
    PNone
  | PBool bool
  | PInt int
  | PFloat 'f
  | PComplex 'f 'f
  | PStr string
  | PRef nat

text \<open>
  An object is the association list of its data attributes; the heap maps an address
  (the \<^verbatim>\<open>id\<close> of the object) to the object stored there. Attributes that a class provides
  (methods) and the attributes of built-in values are not part of the model.
\<close>

type_synonym 'f pyobj = "(string \<times> 'f pyval) list"
type_synonym 'f heap = "nat \<Rightarrow> 'f pyobj"

datatype cmpop = OpEq | OpNe | OpGe | OpLe | OpGt | OpLt

datatype pyexn = AttributeError | TypeError | NameError | KeyError | ValueError

record 'f runtime =
  py_int :: "string \<Rightarrow> int option"
  py_float :: "string \<Rightarrow> 'f option"
  py_complex :: "string \<Rightarrow> ('f \<times> 'f) option"
  float_of_int :: "int \<Rightarrow> 'f"
  float_pi :: "'f"
  float_mul :: "'f \<Rightarrow> 'f \<Rightarrow> 'f"
  float_div :: "'f \<Rightarrow> 'f \<Rightarrow> 'f"
  float_nonzero :: "'f \<Rightarrow> bool"
  py_compare :: "cmpop \<Rightarrow> 'f pyval \<Rightarrow> 'f \<Rightarrow> pyexn + bool"
  py_fnmatch :: "string \<Rightarrow> string \<Rightarrow> bool"

text \<open>
  \<open>py_int\<close>, \<open>py_float\<close> and \<open>py_complex\<close> are the constructors \<^verbatim>\<open>int\<close>, \<^verbatim>\<open>float\<close> and
  \<^verbatim>\<open>complex\<close> applied to a string (\<open>None\<close> when they raise \<^verbatim>\<open>ValueError\<close>);
  \<open>py_compare\<close> applies a comparison operator to an attribute value and a float and may
  raise \<^verbatim>\<open>TypeError\<close>; \<open>py_fnmatch name pattern\<close> is \<^verbatim>\<open>fnmatch.fnmatch\<close>.
\<close>

text \<open>What the program prints, one constructor for each \<^verbatim>\<open>print\<close> of the source.\<close>

datatype 'f msg =
    MSelecting
  | MNoneSelected string
  | MOneSelected string "'f pyval"
  | MFewSelected string nat "string list"
  | MManySelected string nat
  | MUsingAll
  | MUsingSelected nat
  | MSources "string list"
  | MListIgnoring
  | MCantParse string string
  | MSettingTag string string string
  | MSettingTrue string
  | MSettingFalse string
  | MRemoving string
  | MNoSourcesIgnoring
  | MCantResolve string "'f pyval"
  | MMalformed string
  | MIncorrectArgs
  | MNoSources
  | MNotModified
  | MCancelling
  | MSaved "string option"

text \<open>
  A run that stops early: \<open>Exit n m\<close> prints \<open>m\<close> and leaves with exit status \<open>n\<close>
  (\<^verbatim>\<open>sys.exit(n)\<close> after a \<^verbatim>\<open>print\<close>, or \<^verbatim>\<open>parser.error\<close>, whose status is 2);
  \<open>Uncaught e\<close> is an exception that nothing catches.
\<close>

datatype 'f abort = Exit nat "'f msg" | Uncaught pyexn

section \<open>The four regular expressions of the argument loop\<close>

definition lower_char :: "char \<Rightarrow> char" where
  "lower_char c =
     (case map_of (zip ''ABCDEFGHIJKLMNOPQRSTUVWXYZ'' ''abcdefghijklmnopqrstuvwxyz'') c of
        Some l \<Rightarrow> l
      | None \<Rightarrow> c)"

definition lower :: "string \<Rightarrow> string" where
  "lower s = map lower_char s"

text \<open>
  The comparison predicates, in the order of the dictionary literal: the order of its keys
  is the order of the alternatives in the regular expression built from them.
\<close>

definition select_predicates :: "(string \<times> cmpop) list" where
  "select_predicates =
     [(''=='', OpEq), (''!='', OpNe), (''>='', OpGe), (''<='', OpLe), (''>'', OpGt), (''<'', OpLt),
      (''.eq.'', OpEq), (''.ne.'', OpNe), (''.ge.'', OpGe), (''.le.'', OpLe),
      (''.gt.'', OpGt), (''.lt.'', OpLt)]"

text \<open>
  \<^verbatim>\<open>([^dms]+)([dms])?\<close> under \<^verbatim>\<open>(?i)\<close>, at the end of an unanchored pattern: the longest
  run of characters other than d, m, s in either case, which must not be empty, then the
  next character when there is one (it is then one of d, m, s).
\<close>

definition not_dms :: "char \<Rightarrow> bool" where
  "not_dms c = (lower_char c \<notin> set ''dms'')"

definition sel_value :: "string \<Rightarrow> (string \<times> string option) option" where
  "sel_value r =
     (let v = takeWhile not_dms r in
      if v = [] then None
      else Some (v, case dropWhile not_dms r of [] \<Rightarrow> None | c # _ \<Rightarrow> Some [c]))"

definition ci_prefix :: "string \<Rightarrow> string \<Rightarrow> bool" where
  "ci_prefix k r = (length k \<le> length r \<and> lower (take (length k) r) = lower k)"

text \<open>The alternation of operators: the first alternative after which the rest matches.\<close>

fun try_ops :: "string list \<Rightarrow> string \<Rightarrow> (string \<times> string \<times> string option) option" where
  "try_ops [] r = None"
| "try_ops (k # ks) r =
     (if ci_prefix k r then
        (case sel_value (drop (length k) r) of
           Some (v, u) \<Rightarrow> Some (take (length k) r, v, u)
         | None \<Rightarrow> try_ops ks r)
      else try_ops ks r)"

text \<open>\<^verbatim>\<open>([^=<>!.]+)\<close> is greedy: the longest tag first, then shorter ones.\<close>

fun try_tag :: "nat \<Rightarrow> string \<Rightarrow> (string \<times> string \<times> string \<times> string option) option" where
  "try_tag 0 arg = None"
| "try_tag (Suc n) arg =
     (case try_ops (map fst select_predicates) (drop (Suc n) arg) of
        Some (oper, v, u) \<Rightarrow> Some (take (Suc n) arg, oper, v, u)
      | None \<Rightarrow> try_tag n arg)"

definition mselcomp :: "string \<Rightarrow> (string \<times> string \<times> string \<times> string option) option" where
  "mselcomp arg = try_tag (length (takeWhile (\<lambda>c. c \<notin> set ''=<>!.'') arg)) arg"

text \<open>
  \<^verbatim>\<open>(.+)$\<close>: the dot matches no newline, and \<^verbatim>\<open>$\<close> matches at the end of the string and
  just before a newline that ends it.
\<close>

definition newline :: char where
  "newline = CHR 0x0A"

definition dot_plus_eol :: "string \<Rightarrow> string option" where
  "dot_plus_eol s =
     (let g = takeWhile (\<lambda>c. c \<noteq> newline) s; r = dropWhile (\<lambda>c. c \<noteq> newline) s in
      if g \<noteq> [] \<and> (r = [] \<or> r = [newline]) then Some g else None)"

definition mseltag :: "string \<Rightarrow> string option" where
  "mseltag arg =
     (case arg of [] \<Rightarrow> None | c # s \<Rightarrow> if c = CHR ''='' then dot_plus_eol s else None)"

text \<open>
  \<^verbatim>\<open>^(.+)=((bool|int|str|float|complex):)?(.+)$\<close>: the groups kept are the tag name, the
  type name and the value (the second group, the type name with its colon, is not used).
\<close>

fun try_types :: "string list \<Rightarrow> string \<Rightarrow> (string \<times> string) option" where
  "try_types [] r = None"
| "try_types (t # ts) r =
     (if take (length t + 1) r = t @ '':'' then
        (case dot_plus_eol (drop (length t + 1) r) of
           Some v \<Rightarrow> Some (t, v)
         | None \<Rightarrow> try_types ts r)
      else try_types ts r)"

definition mset_rest :: "string \<Rightarrow> (string option \<times> string) option" where
  "mset_rest r =
     (case try_types [''bool'', ''int'', ''str'', ''float'', ''complex''] r of
        Some (t, v) \<Rightarrow> Some (Some t, v)
      | None \<Rightarrow> (case dot_plus_eol r of Some v \<Rightarrow> Some (None, v) | None \<Rightarrow> None))"

fun mset_at :: "nat \<Rightarrow> string \<Rightarrow> (string \<times> string option \<times> string) option" where
  "mset_at 0 arg = None"
| "mset_at (Suc n) arg =
     (if Suc n < length arg \<and> arg ! Suc n = CHR ''='' then
        (case mset_rest (drop (Suc (Suc n)) arg) of
           Some (t, v) \<Rightarrow> Some (take (Suc n) arg, t, v)
         | None \<Rightarrow> mset_at n arg)
      else mset_at n arg)"

definition mset :: "string \<Rightarrow> (string \<times> string option \<times> string) option" where
  "mset arg = mset_at (length (takeWhile (\<lambda>c. c \<noteq> newline) arg)) arg"

text \<open>\<^verbatim>\<open>^([+!/])(.+)$\<close>\<close>

definition msetbool :: "string \<Rightarrow> (string \<times> string) option" where
  "msetbool arg =
     (case arg of
        [] \<Rightarrow> None
      | c # s \<Rightarrow>
          if c \<in> set ''+!/'' then
            (case dot_plus_eol s of Some t \<Rightarrow> Some ([c], t) | None \<Rightarrow> None)
          else None)"

section \<open>Attribute access\<close>

text \<open>
  \<^verbatim>\<open>getattr(o, name, None)\<close>, \<^verbatim>\<open>hasattr(o, name)\<close> and \<^verbatim>\<open>o.name\<close>. Only objects on the
  heap carry attributes here.
\<close>

definition getattr_default :: "'f heap \<Rightarrow> 'f pyval \<Rightarrow> string \<Rightarrow> 'f pyval" where
  "getattr_default h v name =
     (case v of
        PRef a \<Rightarrow> (case map_of (h a) name of Some x \<Rightarrow> x | None \<Rightarrow> PNone)
      | _ \<Rightarrow> PNone)"

definition hasattr :: "'f heap \<Rightarrow> 'f pyval \<Rightarrow> string \<Rightarrow> bool" where
  "hasattr h v name = (case v of PRef a \<Rightarrow> map_of (h a) name \<noteq> None | _ \<Rightarrow> False)"

definition getattr :: "'f heap \<Rightarrow> 'f pyval \<Rightarrow> string \<Rightarrow> 'f abort + 'f pyval" where
  "getattr h v name =
     (case v of
        PRef a \<Rightarrow> (case map_of (h a) name of Some x \<Rightarrow> Inr x | None \<Rightarrow> Inl (Uncaught AttributeError))
      | _ \<Rightarrow> Inl (Uncaught AttributeError))"

text \<open>
  Modelled from the spec: \<^verbatim>\<open>set_attribute(object, name, value)\<close> and
  \<^verbatim>\<open>remove_attribute(object, name)\<close> of the catalog's objects (the methods
  \<^verbatim>\<open>setAttribute\<close> and \<^verbatim>\<open>removeAttribute\<close> of the Tigger model classes, which are not in
  this file): setting binds the name to the value on that object, removing deletes the
  binding and does nothing when the name is absent.
\<close>

fun assign :: "string \<Rightarrow> 'v \<Rightarrow> (string \<times> 'v) list \<Rightarrow> (string \<times> 'v) list" where
  "assign k v [] = [(k, v)]"
| "assign k v (kv # kvs) = (if fst kv = k then (k, v) # kvs else kv # assign k v kvs)"

definition setAttribute :: "'f heap \<Rightarrow> nat \<Rightarrow> string \<Rightarrow> 'f pyval \<Rightarrow> 'f heap" where
  "setAttribute h a name v = h(a := assign name v (h a))"

definition removeAttribute :: "'f heap \<Rightarrow> nat \<Rightarrow> string \<Rightarrow> 'f heap" where
  "removeAttribute h a name = h(a := filter (\<lambda>kv. fst kv \<noteq> name) (h a))"

text \<open>Comprehensions whose element function may raise: the first exception ends them.\<close>

fun map_res :: "('a \<Rightarrow> 'e + 'b) \<Rightarrow> 'a list \<Rightarrow> 'e + 'b list" where
  "map_res f [] = Inr []"
| "map_res f (x # xs) =
     (case f x of
        Inl e \<Rightarrow> Inl e
      | Inr y \<Rightarrow> (case map_res f xs of Inl e \<Rightarrow> Inl e | Inr ys \<Rightarrow> Inr (y # ys)))"

fun filter_res :: "('a \<Rightarrow> 'e + bool) \<Rightarrow> 'a list \<Rightarrow> 'e + 'a list" where
  "filter_res p [] = Inr []"
| "filter_res p (x # xs) =
     (case p x of
        Inl e \<Rightarrow> Inl e
      | Inr b \<Rightarrow>
          (case filter_res p xs of
             Inl e \<Rightarrow> Inl e
           | Inr ys \<Rightarrow> Inr (if b then x # ys else ys)))"

text \<open>\<^verbatim>\<open>[src.name for src in sel]\<close> and \<^verbatim>\<open>" ".join\<close> of it, which wants strings.\<close>

definition names_of :: "'f heap \<Rightarrow> nat list \<Rightarrow> 'f abort + 'f pyval list" where
  "names_of h sel = map_res (\<lambda>src. getattr h (PRef src) ''name'') sel"

definition as_str :: "'f pyval \<Rightarrow> 'f abort + string" where
  "as_str v = (case v of PStr s \<Rightarrow> Inr s | _ \<Rightarrow> Inl (Uncaught TypeError))"

definition joined_names :: "'f heap \<Rightarrow> nat list \<Rightarrow> 'f abort + string list" where
  "joined_names h sel =
     (case names_of h sel of Inl e \<Rightarrow> Inl e | Inr ns \<Rightarrow> map_res as_str ns)"

section \<open>Value coercion\<close>

definition conv_int :: "'f runtime \<Rightarrow> string \<Rightarrow> 'f pyval option" where
  "conv_int r s = map_option PInt (py_int r s)"

definition conv_float :: "'f runtime \<Rightarrow> string \<Rightarrow> 'f pyval option" where
  "conv_float r s = map_option PFloat (py_float r s)"

definition conv_complex :: "'f runtime \<Rightarrow> string \<Rightarrow> 'f pyval option" where
  "conv_complex r s = map_option (\<lambda>(re, im). PComplex re im) (py_complex r s)"

definition conv_str :: "string \<Rightarrow> 'f pyval option" where
  "conv_str s = Some (PStr s)"

text \<open>
  The names bound in the module's namespace, which \<^verbatim>\<open>globals()\<close> returns: the ones the
  interpreter gives every module, then the imports, constants and functions of the file
  and the three names \<^verbatim>\<open>main\<close> declares global. One of them is bound to the module of
  built-in functions.
\<close>

datatype binding = BuiltinsModule | OtherBinding

definition module_globals :: "(string \<times> binding) list" where
  "module_globals =
     [(''__name__'', OtherBinding), (''__doc__'', OtherBinding), (''__package__'', OtherBinding),
      (''__loader__'', OtherBinding), (''__spec__'', OtherBinding),
      (''__annotations__'', OtherBinding), (''__builtins__'', BuiltinsModule),
      (''__file__'', OtherBinding), (''__cached__'', OtherBinding),
      (''fnmatch'', OtherBinding), (''math'', OtherBinding), (''re'', OtherBinding),
      (''sys'', OtherBinding), (''os'', OtherBinding), (''DEG'', OtherBinding),
      (''ARCSEC'', OtherBinding), (''NATIVE'', OtherBinding),
      (''transfer_tags'', OtherBinding), (''main'', OtherBinding),
      (''selected_ids'', OtherBinding), (''selection'', OtherBinding),
      (''listed'', OtherBinding)]"

text \<open>\<^verbatim>\<open>getattr(m, typename)\<close> for a module \<open>m\<close>: the built-in constructor of that name.\<close>

definition module_attr ::
  "'f runtime \<Rightarrow> binding \<Rightarrow> string \<Rightarrow> (string \<Rightarrow> 'f pyval option) option" where
  "module_attr r m typename =
     (case m of
        BuiltinsModule \<Rightarrow>
          map_of [(''int'', conv_int r), (''float'', conv_float r),
                  (''complex'', conv_complex r), (''str'', conv_str)] typename
      | OtherBinding \<Rightarrow> None)"

text \<open>
  \<^verbatim>\<open>newval = getattr(globals()["__builtin__"], typename)(value)\<close> inside \<^verbatim>\<open>try\<close>, whose bare
  \<^verbatim>\<open>except\<close> prints the message and leaves with status 2 whatever was raised.
\<close>

definition explicit_convert :: "'f runtime \<Rightarrow> string \<Rightarrow> string \<Rightarrow> 'f abort + 'f pyval" where
  "explicit_convert r typename val =
     (case map_of module_globals ''__builtin__'' of
        None \<Rightarrow> Inl (Exit 2 (MCantParse val typename))
      | Some m \<Rightarrow>
          (case module_attr r m typename of
             None \<Rightarrow> Inl (Exit 2 (MCantParse val typename))
           | Some tp \<Rightarrow>
               (case tp val of
                  None \<Rightarrow> Inl (Exit 2 (MCantParse val typename))
                | Some newval \<Rightarrow> Inr newval)))"

text \<open>
  \<^verbatim>\<open>for tp in int, float, complex, str: try: newval = tp(value); break; except: pass\<close>
\<close>

fun first_conversion :: "(string \<Rightarrow> 'v option) list \<Rightarrow> string \<Rightarrow> 'v \<Rightarrow> 'v" where
  "first_conversion [] val newval = newval"
| "first_conversion (tp # tps) val newval =
     (case tp val of Some v \<Rightarrow> v | None \<Rightarrow> first_conversion tps val newval)"

definition auto_convert :: "'f runtime \<Rightarrow> string \<Rightarrow> 'f pyval" where
  "auto_convert r val =
     first_conversion [conv_int r, conv_float r, conv_complex r, conv_str] val PNone"

definition bool_convert :: "'f runtime \<Rightarrow> string \<Rightarrow> 'f abort + 'f pyval" where
  "bool_convert r val =
     (let v = lower val in
      if v = ''true'' \<or> v = ''t'' then Inr (PBool True)
      else if v = ''false'' \<or> v = ''f'' then Inr (PBool False)
      else (case py_int r val of
              Some i \<Rightarrow> Inr (PBool (i \<noteq> 0))
            | None \<Rightarrow> Inl (Exit 2 (MCantParse val ''bool''))))"

definition coerce :: "'f runtime \<Rightarrow> string option \<Rightarrow> string \<Rightarrow> 'f abort + 'f pyval" where
  "coerce r typename val =
     (if typename = Some ''bool'' then bool_convert r val
      else (case typename of
              Some t \<Rightarrow> explicit_convert r t val
            | None \<Rightarrow> Inr (auto_convert r val)))"

definition type_name :: "'f pyval \<Rightarrow> string" where
  "type_name v =
     (case v of
        PNone \<Rightarrow> ''NoneType'' | PBool _ \<Rightarrow> ''bool'' | PInt _ \<Rightarrow> ''int'' | PFloat _ \<Rightarrow> ''float''
      | PComplex _ _ \<Rightarrow> ''complex'' | PStr _ \<Rightarrow> ''str'' | PRef _ \<Rightarrow> ''object'')"

section \<open>The selection state and its two helpers\<close>

text \<open>
  The globals \<^verbatim>\<open>selected_ids\<close>, \<^verbatim>\<open>selection\<close> and \<^verbatim>\<open>listed\<close> (which is not bound before
  its first assignment), the local \<^verbatim>\<open>modified\<close>, the objects of the model and what has
  been printed. The selection is a list of references to the sources of the model.
\<close>

record 'f state =
  heap :: "'f heap"
  selected_ids :: "nat set option"
  selection :: "nat list option"
  listed :: "bool option"
  modified :: bool
  out :: "'f msg list"

text \<open>
  What a run is given: the interpreter, \<^verbatim>\<open>model.sources\<close>, the options \<^verbatim>\<open>--list\<close>,
  \<^verbatim>\<open>--force\<close> and \<^verbatim>\<open>--output\<close>, and whether the user confirms at the prompt. The option
  \<^verbatim>\<open>--transfer-tags\<close> is taken as not given.
\<close>

record 'f env =
  interp :: "'f runtime"
  model_sources :: "nat list"
  opt_list :: bool
  opt_force :: bool
  opt_output :: "string option"
  confirmed :: bool

definition print :: "'f msg \<Rightarrow> 'f state \<Rightarrow> 'f state" where
  "print m st = st\<lparr>out := out st @ [m]\<rparr>"

definition report_selection :: "'f heap \<Rightarrow> nat list \<Rightarrow> string \<Rightarrow> 'f abort + 'f msg" where
  "report_selection h sel selstr =
     (if length sel = 0 then Inr (MNoneSelected selstr)
      else if length sel = 1 then
        (case getattr h (PRef (sel ! 0)) ''name'' of
           Inl e \<Rightarrow> Inl e
         | Inr n \<Rightarrow> Inr (MOneSelected selstr n))
      else if length sel \<le> 5 then
        (case joined_names h sel of
           Inl e \<Rightarrow> Inl e
         | Inr ns \<Rightarrow> Inr (MFewSelected selstr (length sel) ns))
      else Inr (MManySelected selstr (length sel)))"

definition apply_selection :: "'f state \<Rightarrow> nat list \<Rightarrow> string \<Rightarrow> 'f abort + 'f state" where
  "apply_selection st sel selstr =
     (let st1 = st\<lparr>listed := Some False\<rparr>;
          st2 = (if selection st1 \<noteq> None \<or> selected_ids st1 = None
                 then (print MSelecting st1)\<lparr>selected_ids := Some {}, selection := None\<rparr>
                 else st1)
      in case selected_ids st2 of
           None \<Rightarrow> Inl (Uncaught AttributeError)
         | Some ids \<Rightarrow>
             (let st3 = st2\<lparr>selected_ids := Some (ids \<union> set sel)\<rparr>
              in case report_selection (heap st3) sel selstr of
                   Inl e \<Rightarrow> Inl e
                 | Inr m \<Rightarrow> Inr (print m st3)))"

definition retrieve_selection :: "'f env \<Rightarrow> 'f state \<Rightarrow> 'f abort + (nat list \<times> 'f state)" where
  "retrieve_selection env st =
     (let st1 = (case selection st of
                   Some s \<Rightarrow> st
                 | None \<Rightarrow>
                     (case selected_ids st of
                        None \<Rightarrow> (print MUsingAll st)\<lparr>selection := Some (model_sources env)\<rparr>
                      | Some ids \<Rightarrow>
                          (let s = filter (\<lambda>src. src \<in> ids) (model_sources env)
                           in (print (MUsingSelected (length s)) st)\<lparr>selection := Some s\<rparr>)))
      in case selection st1 of
           None \<Rightarrow> Inl (Uncaught TypeError)
         | Some s \<Rightarrow>
             if opt_list env then
               (case joined_names (heap st1) s of
                  Inl e \<Rightarrow> Inl e
                | Inr ns \<Rightarrow> Inr (s, (print (MSources ns) st1)\<lparr>listed := Some True\<rparr>))
             else Inr (s, st1))"

section \<open>Reading tags and resolving dotted names\<close>

fun first_with_attr :: "'f heap \<Rightarrow> 'f pyval list \<Rightarrow> string \<Rightarrow> 'f pyval" where
  "first_with_attr h [] tag = PNone"
| "first_with_attr h (obj # objs) tag =
     (if obj \<noteq> PNone \<and> hasattr h obj tag then getattr_default h obj tag
      else first_with_attr h objs tag)"

text \<open>
  The tuple \<^verbatim>\<open>src, src.pos, src.flux, getattr(src, 'shape', None), getattr(src, 'spectrum', None)\<close>
  is built before the loop looks into it, so a source without \<^verbatim>\<open>pos\<close> or \<^verbatim>\<open>flux\<close> raises.
\<close>

definition getTagValue :: "'f heap \<Rightarrow> nat \<Rightarrow> string \<Rightarrow> 'f abort + 'f pyval" where
  "getTagValue h src tag =
     (case getattr h (PRef src) ''pos'' of
        Inl e \<Rightarrow> Inl e
      | Inr p \<Rightarrow>
          (case getattr h (PRef src) ''flux'' of
             Inl e \<Rightarrow> Inl e
           | Inr f \<Rightarrow>
               Inr (first_with_attr h
                      [PRef src, p, f, getattr_default h (PRef src) ''shape'',
                       getattr_default h (PRef src) ''spectrum''] tag)))"

text \<open>\<^verbatim>\<open>tagname.split(".")\<close>, which has at least one element.\<close>

fun split_dot :: "string \<Rightarrow> string list" where
  "split_dot [] = [[]]"
| "split_dot (c # cs) =
     (if c = CHR ''.'' then [] # split_dot cs
      else (case split_dot cs of [] \<Rightarrow> [[c]] | x # xs \<Rightarrow> (c # x) # xs))"

text \<open>
  The loop of \<^verbatim>\<open>lookupObject\<close> over \<^verbatim>\<open>tags[:-1]\<close>. It rebinds \<^verbatim>\<open>src\<close> first and tests it
  next, so the message is built from \<^verbatim>\<open>src.name\<close> with \<^verbatim>\<open>src\<close> already \<^verbatim>\<open>None\<close>.
\<close>

fun walk :: "'f heap \<Rightarrow> string \<Rightarrow> 'f pyval \<Rightarrow> string list \<Rightarrow> 'f abort + 'f pyval" where
  "walk h tagname src [] = Inr src"
| "walk h tagname src (subobj # rest) =
     (let src' = getattr_default h src subobj in
      if src' = PNone then
        (case getattr h src' ''name'' of
           Inl e \<Rightarrow> Inl e
         | Inr n \<Rightarrow> Inl (Exit 1 (MCantResolve tagname n)))
      else walk h tagname src' rest)"

definition lookupObject :: "'f heap \<Rightarrow> nat \<Rightarrow> string \<Rightarrow> 'f abort + ('f pyval \<times> string)" where
  "lookupObject h src tagname =
     (let tags = split_dot tagname in
      case walk h tagname (PRef src) (butlast tags) of
        Inl e \<Rightarrow> Inl e
      | Inr obj \<Rightarrow> Inr (obj, last tags))"

section \<open>The argument loop\<close>

definition DEG :: "'f runtime \<Rightarrow> 'f" where
  "DEG r = float_div r (float_pi r) (float_of_int r 180)"

definition select_units :: "'f runtime \<Rightarrow> (string \<times> 'f) list" where
  "select_units r =
     [(''d'', DEG r), (''m'', float_div r (DEG r) (float_of_int r 60)),
      (''s'', float_div r (DEG r) (float_of_int r 3600))]"

text \<open>\<^verbatim>\<open>select_units.get(unit, 1.)\<close>, where \<^verbatim>\<open>unit\<close> is \<^verbatim>\<open>None\<close> when the group did not match.\<close>

definition unit_factor :: "'f runtime \<Rightarrow> string option \<Rightarrow> 'f" where
  "unit_factor r unit =
     (case unit of
        None \<Rightarrow> float_of_int r 1
      | Some u \<Rightarrow> (case map_of (select_units r) u of Some x \<Rightarrow> x | None \<Rightarrow> float_of_int r 1))"

definition truthy :: "'f runtime \<Rightarrow> 'f pyval \<Rightarrow> bool" where
  "truthy r v =
     (case v of
        PNone \<Rightarrow> False | PBool b \<Rightarrow> b | PInt i \<Rightarrow> i \<noteq> 0 | PFloat x \<Rightarrow> float_nonzero r x
      | PComplex re im \<Rightarrow> float_nonzero r re \<or> float_nonzero r im
      | PStr s \<Rightarrow> s \<noteq> [] | PRef _ \<Rightarrow> True)"

text \<open>
  The list each selection branch hands to \<^verbatim>\<open>apply_selection\<close>: by comparison, by tag,
  by name.
\<close>

definition comp_sel ::
  "'f env \<Rightarrow> 'f heap \<Rightarrow> string \<Rightarrow> string \<times> string \<times> string \<times> string option
     \<Rightarrow> 'f abort + nat list" where
  "comp_sel env h arg g =
     (case g of (seltag, oper, selval, unit) \<Rightarrow>
        (case py_float (interp env) selval of
           None \<Rightarrow> Inl (Exit 2 (MMalformed arg))
         | Some x \<Rightarrow>
             (let y = float_mul (interp env) x (unit_factor (interp env) unit) in
              case map_of select_predicates (lower oper) of
                None \<Rightarrow> Inl (Uncaught KeyError)
              | Some predicate \<Rightarrow>
                  (case map_res (\<lambda>src. case getTagValue h src seltag of
                                         Inl e \<Rightarrow> Inl e
                                       | Inr tag \<Rightarrow> Inr (src, tag)) (model_sources env) of
                     Inl e \<Rightarrow> Inl e
                   | Inr srctag \<Rightarrow>
                       (case filter_res
                               (\<lambda>(src, tag).
                                  if tag \<noteq> PNone then
                                    (case py_compare (interp env) predicate tag y of
                                       Inl e \<Rightarrow> Inl (Uncaught e)
                                     | Inr b \<Rightarrow> Inr b)
                                  else Inr False) srctag of
                          Inl e \<Rightarrow> Inl e
                        | Inr kept \<Rightarrow> Inr (map fst kept))))))"

definition tag_sel :: "'f env \<Rightarrow> 'f heap \<Rightarrow> string \<Rightarrow> 'f abort + nat list" where
  "tag_sel env h seltag =
     filter_res (\<lambda>src. case getTagValue h src seltag of
                         Inl e \<Rightarrow> Inl e
                       | Inr v \<Rightarrow> Inr (truthy (interp env) v)) (model_sources env)"

definition name_sel :: "'f env \<Rightarrow> 'f heap \<Rightarrow> string \<Rightarrow> 'f abort + nat list" where
  "name_sel env h arg =
     filter_res (\<lambda>src. case getattr h (PRef src) ''name'' of
                         Inl e \<Rightarrow> Inl e
                       | Inr n \<Rightarrow>
                           (case as_str n of
                              Inl e \<Rightarrow> Inl e
                            | Inr s \<Rightarrow> Inr (py_fnmatch (interp env) s arg))) (model_sources env)"

text \<open>
  The first three branches of the loop body are the selections; \<open>None\<close> means that the
  argument is a tagging command.
\<close>

definition selection_of :: "'f env \<Rightarrow> 'f heap \<Rightarrow> string \<Rightarrow> ('f abort + nat list) option" where
  "selection_of env h arg =
     (case mselcomp arg of
        Some g \<Rightarrow> Some (comp_sel env h arg g)
      | None \<Rightarrow>
          (case mseltag arg of
             Some seltag \<Rightarrow> Some (tag_sel env h seltag)
           | None \<Rightarrow>
               if mset arg = None \<and> msetbool arg = None then Some (name_sel env h arg)
               else None))"

datatype 'f action = SetAttr "'f pyval" | RemoveAttr

definition call_method :: "'f heap \<Rightarrow> 'f pyval \<Rightarrow> string \<Rightarrow> 'f action \<Rightarrow> 'f abort + 'f heap" where
  "call_method h obj tag act =
     (case obj of
        PRef a \<Rightarrow>
          Inr (case act of
                 SetAttr v \<Rightarrow> setAttribute h a tag v
               | RemoveAttr \<Rightarrow> removeAttribute h a tag)
      | _ \<Rightarrow> Inl (Uncaught AttributeError))"

text \<open>\<^verbatim>\<open>for src in sources: obj, tag = lookupObject(src, tagname); ...\<close>\<close>

fun tag_sources :: "'f heap \<Rightarrow> nat list \<Rightarrow> string \<Rightarrow> 'f action \<Rightarrow> 'f abort + 'f heap" where
  "tag_sources h [] tagname act = Inr h"
| "tag_sources h (src # srcs) tagname act =
     (case lookupObject h src tagname of
        Inl e \<Rightarrow> Inl e
      | Inr (obj, tag) \<Rightarrow>
          (case call_method h obj tag act of
             Inl e \<Rightarrow> Inl e
           | Inr h' \<Rightarrow> tag_sources h' srcs tagname act))"

definition quoted :: "string \<Rightarrow> string" where
  "quoted s = [CHR 0x22] @ s @ [CHR 0x22]"

definition do_mset ::
  "'f env \<Rightarrow> 'f state \<Rightarrow> string \<times> string option \<times> string \<Rightarrow> 'f abort + 'f state" where
  "do_mset env st g =
     (case g of (tagname, typename, val) \<Rightarrow>
        (case retrieve_selection env st of
           Inl e \<Rightarrow> Inl e
         | Inr (sources, st1) \<Rightarrow>
             if opt_list env then Inr (print MListIgnoring st1)
             else
               (case coerce (interp env) typename val of
                  Inl e \<Rightarrow> Inl e
                | Inr newval \<Rightarrow>
                    (let shown = (if type_name newval = ''str'' then quoted val else val) in
                     if sources \<noteq> [] then
                       (let st2 = print (MSettingTag tagname shown (type_name newval)) st1 in
                        case tag_sources (heap st2) sources tagname (SetAttr newval) of
                          Inl e \<Rightarrow> Inl e
                        | Inr h' \<Rightarrow> Inr (st2\<lparr>heap := h', modified := True\<rparr>))
                     else Inr (print MNoSourcesIgnoring st1)))))"

text \<open>
  The three operators of a boolean command. The regular expression lets no other
  character through; the source would reach its loop with \<^verbatim>\<open>method\<close> unbound.
\<close>

definition bool_action :: "string \<Rightarrow> string \<Rightarrow> ('f msg \<times> 'f action) option" where
  "bool_action oper tagname =
     (if oper = ''+'' then Some (MSettingTrue tagname, SetAttr (PBool True))
      else if oper = ''!'' then Some (MSettingFalse tagname, SetAttr (PBool False))
      else if oper = ''/'' then Some (MRemoving tagname, RemoveAttr)
      else None)"

definition do_msetbool ::
  "'f env \<Rightarrow> 'f state \<Rightarrow> string \<times> string \<Rightarrow> 'f abort + 'f state" where
  "do_msetbool env st g =
     (case g of (oper, tagname) \<Rightarrow>
        (case retrieve_selection env st of
           Inl e \<Rightarrow> Inl e
         | Inr (sources, st1) \<Rightarrow>
             if opt_list env then Inr (print MListIgnoring st1)
             else if sources \<noteq> [] then
               (case bool_action oper tagname of
                  None \<Rightarrow> Inl (Uncaught NameError)
                | Some (m, act) \<Rightarrow>
                    (let st2 = print m st1 in
                     case tag_sources (heap st2) sources tagname act of
                       Inl e \<Rightarrow> Inl e
                     | Inr h' \<Rightarrow> Inr (st2\<lparr>heap := h', modified := True\<rparr>)))
             else Inr (print MNoSourcesIgnoring st1)))"

definition process_arg :: "'f env \<Rightarrow> 'f state \<Rightarrow> string \<Rightarrow> 'f abort + 'f state" where
  "process_arg env st arg =
     (case selection_of env (heap st) arg of
        Some (Inl e) \<Rightarrow> Inl e
      | Some (Inr sel) \<Rightarrow> apply_selection st sel arg
      | None \<Rightarrow>
          (case mset arg of
             Some g \<Rightarrow> do_mset env st g
           | None \<Rightarrow>
               (case msetbool arg of
                  Some g \<Rightarrow> do_msetbool env st g
                | None \<Rightarrow> Inr st)))"

fun run :: "'f env \<Rightarrow> 'f state \<Rightarrow> string list \<Rightarrow> 'f abort + 'f state" where
  "run env st [] = Inr st"
| "run env st (arg # args) =
     (case process_arg env st arg of
        Inl e \<Rightarrow> Inl e
      | Inr st' \<Rightarrow> run env st' args)"

section \<open>The end of the run\<close>

definition initial :: "'f heap \<Rightarrow> 'f state" where
  "initial h =
     \<lparr>heap = h, selected_ids = None, selection = None, listed = None, modified = False,
      out = []\<rparr>"

datatype 'f ending = Stopped "'f abort" | Saved string "'f state"

definition finish :: "'f env \<Rightarrow> string \<Rightarrow> 'f state \<Rightarrow> 'f ending" where
  "finish env skymodel st =
     (case (if opt_list env then
              (case listed st of
                 None \<Rightarrow> Inl (Uncaught NameError)
               | Some l \<Rightarrow>
                   if \<not> l then
                     (case retrieve_selection env st of
                        Inl e \<Rightarrow> Inl e
                      | Inr (s, st1) \<Rightarrow> Inr st1)
                   else Inr st)
            else Inr st) of
        Inl e \<Rightarrow> Stopped e
      | Inr st1 \<Rightarrow>
          if \<not> modified st1 then Stopped (Exit 0 MNotModified)
          else if \<not> opt_force env \<and> \<not> confirmed env then Stopped (Exit 1 MCancelling)
          else (case opt_output env of
                  Some f \<Rightarrow> Saved f (print (MSaved (Some f)) st1)
                | None \<Rightarrow> Saved skymodel (print (MSaved None) st1)))"

text \<open>
  \<^verbatim>\<open>main\<close> from the argument count on: \<open>rem_args\<close> holds the name of the sky model and
  then the arguments of the loop; \<open>h\<close> is the loaded model.
\<close>

definition main :: "'f env \<Rightarrow> 'f heap \<Rightarrow> string list \<Rightarrow> 'f ending" where
  "main env h rem_args =
     (if length rem_args < 2 then Stopped (Exit 2 MIncorrectArgs)
      else if model_sources env = [] then Stopped (Exit 0 MNoSources)
      else (case run env (initial h) (tl rem_args) of
              Inl e \<Rightarrow> Stopped e
            | Inr st \<Rightarrow> finish env (rem_args ! 0) st))"

text \<open>
  The sources one selection argument matches, as a set of identities: what its branch
  adds to \<^verbatim>\<open>selected_ids\<close>.
\<close>

definition match_set :: "'f env \<Rightarrow> 'f heap \<Rightarrow> string \<Rightarrow> nat set" where
  "match_set env h arg =
     (case selection_of env h arg of Some (Inr sel) \<Rightarrow> set sel | _ \<Rightarrow> {})"

text \<open>
  The list \<^verbatim>\<open>retrieve_selection\<close> hands to a tagging command: the selection already
  frozen, or all sources when nothing was selected, or the sources whose identities were
  accumulated.
\<close>

abbreviation materialized :: "'f env \<Rightarrow> 'f state \<Rightarrow> nat list" where
  "materialized env st \<equiv>
     (case selection st of
        Some s \<Rightarrow> s
      | None \<Rightarrow>
          (case selected_ids st of
             None \<Rightarrow> model_sources env
           | Some ids \<Rightarrow> filter (\<lambda>src. src \<in> ids) (model_sources env)))"

section \<open>A catalog and an interpreter for concrete runs\<close>

text \<open>
  The examples run on an interpreter whose floats are rationals, with 355/113 for
  \<^verbatim>\<open>math.pi\<close>. It reads plain decimal integers (the examples use no other numeric
  text), knows the complex literal \<^verbatim>\<open>1+2j\<close>, compares numbers by value and raises
  \<^verbatim>\<open>TypeError\<close> when asked to order anything else, and matches names against patterns
  made of literal characters, \<^verbatim>\<open>*\<close> and \<^verbatim>\<open>?\<close>.
\<close>

definition digit_val :: "char \<Rightarrow> nat option" where
  "digit_val c = map_of (zip ''0123456789'' [0, 1, 2, 3, 4, 5, 6, 7, 8, 9]) c"

fun digits_val :: "nat \<Rightarrow> string \<Rightarrow> nat option" where
  "digits_val acc [] = Some acc"
| "digits_val acc (c # cs) =
     (case digit_val c of None \<Rightarrow> None | Some d \<Rightarrow> digits_val (10 * acc + d) cs)"

definition example_int :: "string \<Rightarrow> int option" where
  "example_int s =
     (case s of
        [] \<Rightarrow> None
      | c # cs \<Rightarrow>
          if c = CHR ''-'' then
            (if cs = [] then None else map_option (\<lambda>n. - int n) (digits_val 0 cs))
          else map_option int (digits_val 0 s))"

fun cmp_rat :: "cmpop \<Rightarrow> rat \<Rightarrow> rat \<Rightarrow> bool" where
  "cmp_rat OpEq x y = (x = y)"
| "cmp_rat OpNe x y = (x \<noteq> y)"
| "cmp_rat OpGe x y = (x \<ge> y)"
| "cmp_rat OpLe x y = (x \<le> y)"
| "cmp_rat OpGt x y = (x > y)"
| "cmp_rat OpLt x y = (x < y)"

definition example_compare :: "cmpop \<Rightarrow> rat pyval \<Rightarrow> rat \<Rightarrow> pyexn + bool" where
  "example_compare opr v y =
     (case v of
        PBool b \<Rightarrow> Inr (cmp_rat opr (if b then 1 else 0) y)
      | PInt i \<Rightarrow> Inr (cmp_rat opr (of_int i) y)
      | PFloat x \<Rightarrow> Inr (cmp_rat opr x y)
      | _ \<Rightarrow> (if opr = OpEq then Inr False
              else if opr = OpNe then Inr True
              else Inl TypeError))"

fun glob :: "string \<Rightarrow> string \<Rightarrow> bool" where
  "glob [] [] = True"
| "glob [] (c # cs) = False"
| "glob (p # ps) [] = (p = CHR ''*'' \<and> glob ps [])"
| "glob (p # ps) (c # cs) =
     (if p = CHR ''*'' then glob ps (c # cs) \<or> glob (p # ps) cs
      else (p = CHR ''?'' \<or> p = c) \<and> glob ps cs)"

definition example_interp :: "rat runtime" where
  "example_interp =
     \<lparr>py_int = example_int,
      py_float = (\<lambda>s. map_option of_int (example_int s)),
      py_complex = map_of [(''1+2j'', (1, 2))],
      float_of_int = of_int,
      float_pi = 355 / 113,
      float_mul = (*),
      float_div = (/),
      float_nonzero = (\<lambda>x. x \<noteq> 0),
      py_compare = example_compare,
      py_fnmatch = (\<lambda>name pat. glob pat name)\<rparr>"

definition degrees :: "rat \<Rightarrow> rat pyval" where
  "degrees x = PFloat (x * DEG example_interp)"

text \<open>Three sources A, B and C at right ascensions 5, 15 and 25 degrees; B carries \<^verbatim>\<open>dE\<close>.\<close>

definition example_heap :: "rat heap" where
  "example_heap =
     (\<lambda>a. [])
       (1 := [(''name'', PStr ''A''), (''pos'', PRef 11), (''flux'', PRef 12)],
        11 := [(''ra'', degrees 5)],
        12 := [(''I'', PFloat 1)],
        2 := [(''name'', PStr ''B''), (''pos'', PRef 21), (''flux'', PRef 22),
              (''dE'', PBool True)],
        21 := [(''ra'', degrees 15)],
        22 := [(''I'', PFloat 2)],
        3 := [(''name'', PStr ''C''), (''pos'', PRef 31), (''flux'', PRef 32)],
        31 := [(''ra'', degrees 25)],
        32 := [(''I'', PFloat 3)])"

definition example_env :: "rat env" where
  "example_env =
     \<lparr>interp = example_interp, model_sources = [1, 2, 3], opt_list = False,
      opt_force = True, opt_output = None, confirmed = False\<rparr>"

definition example_list_env :: "rat env" where
  "example_list_env = example_env\<lparr>opt_list := True\<rparr>"

section \<open>Evaluation\<close>

lemmas regex_defs =
  mselcomp_def select_predicates_def ci_prefix_def lower_def lower_char_def sel_value_def
  not_dms_def mset_def mset_rest_def dot_plus_eol_def newline_def mseltag_def msetbool_def

lemmas example_defs =
  example_env_def example_list_env_def example_interp_def example_heap_def degrees_def
  DEG_def example_int_def digit_val_def example_compare_def initial_def

lemmas run_defs =
  process_arg_def selection_of_def comp_sel_def tag_sel_def name_sel_def do_mset_def
  do_msetbool_def apply_selection_def retrieve_selection_def report_selection_def print_def
  getattr_def getattr_default_def hasattr_def getTagValue_def lookupObject_def
  call_method_def setAttribute_def removeAttribute_def names_of_def joined_names_def
  as_str_def coerce_def bool_convert_def explicit_convert_def auto_convert_def conv_int_def
  conv_float_def conv_complex_def conv_str_def module_globals_def module_attr_def
  type_name_def quoted_def bool_action_def unit_factor_def select_units_def truthy_def
  match_set_def

section \<open>Value coercion: results\<close>

lemma explicit_convert_exits: "explicit_convert r t v = Inl (Exit 2 (MCantParse v t))"
  by (simp add: explicit_convert_def module_globals_def)

lemma coerce_explicit_exits:
  "t \<noteq> ''bool'' \<Longrightarrow> coerce r (Some t) v = Inl (Exit 2 (MCantParse v t))"
  by (simp add: coerce_def explicit_convert_exits)

text \<open>
  Claim C1 says that an assignment with an explicit type among int, float, complex and str
  and a value valid for that type sets the tag to the parsed value, as
  \<^verbatim>\<open>name=complex:1+2j\<close> would set a complex number with real part 1 and imaginary part 2.
  The program does not do that: the namespace of the module binds \<^verbatim>\<open>__builtins__\<close> and
  no \<^verbatim>\<open>__builtin__\<close>, the lookup raises inside the \<^verbatim>\<open>try\<close>, and the run ends with
  status 2 and the message that the value cannot be parsed, although the interpreter
  reads \<^verbatim>\<open>1+2j\<close> as the complex number (1, 2).
\<close>

theorem complex_assignment_exits:
  "py_complex example_interp ''1+2j'' = Some (1, 2) \<and>
   mset ''name=complex:1+2j'' = Some (''name'', Some ''complex'', ''1+2j'') \<and>
   process_arg example_env (initial example_heap) ''name=complex:1+2j''
     = Inl (Exit 2 (MCantParse ''1+2j'' ''complex''))"
  by (simp add: regex_defs example_defs run_defs)

text \<open>
  Claim C9: without an explicit type the value is tried as an integer, then as a float,
  then as a complex number, then as text; the first conversion that succeeds gives the
  value, and since text always succeeds there always is one.
\<close>

theorem auto_convert_first_success:
  "coerce r None v =
     Inr (case py_int r v of
            Some i \<Rightarrow> PInt i
          | None \<Rightarrow>
              (case py_float r v of
                 Some x \<Rightarrow> PFloat x
               | None \<Rightarrow>
                   (case py_complex r v of
                      Some (re, im) \<Rightarrow> PComplex re im
                    | None \<Rightarrow> PStr v)))
   \<and> coerce r None v \<noteq> Inr PNone"
  by (simp add: coerce_def auto_convert_def conv_int_def conv_float_def conv_complex_def
      conv_str_def split: option.splits)

section \<open>Comparison selections with a malformed right-hand side\<close>





section \<open>Dotted names that do not resolve\<close>

lemma walk_never_exits: "walk h t src path \<noteq> Inl (Exit n m)"
  by (induction path arbitrary: src) (auto simp: Let_def getattr_def)

lemma walk_unresolved:
  "getattr_default h src s = PNone \<Longrightarrow>
   walk h t src (s # rest) = Inl (Uncaught AttributeError)"
  by (simp add: getattr_def)

text \<open>
  Claim C3 says that a dotted name with a step that does not resolve ends the run with a
  message naming the path and the source. The run does end, but not that way: source A
  has no attribute \<^verbatim>\<open>foo\<close>, and for \<^verbatim>\<open>+foo.bar\<close> the message is never printed, because
  building it reads \<^verbatim>\<open>name\<close> from \<^verbatim>\<open>None\<close>; the run dies of the uncaught
  \<^verbatim>\<open>AttributeError\<close>.
\<close>

theorem unresolved_path_raises:
  "getattr_default example_heap (PRef 1) ''foo'' = PNone \<and>
   lookupObject example_heap 1 ''foo.bar'' = Inl (Uncaught AttributeError) \<and>
   process_arg example_env (initial example_heap) ''+foo.bar''
     = Inl (Uncaught AttributeError)"
  by (simp add: regex_defs example_defs run_defs)

section \<open>Selections accumulate\<close>

lemma apply_selection_fresh:
  assumes "selection st \<noteq> None \<or> selected_ids st = None"
      and "apply_selection st sel s = Inr st'"
  shows "selected_ids st' = Some (set sel) \<and> selection st' = None \<and> heap st' = heap st \<and>
         modified st' = modified st"
  using assms by (auto simp: apply_selection_def print_def Let_def split: sum.splits)

lemma apply_selection_more:
  assumes "selection st = None" and "selected_ids st = Some ids"
      and "apply_selection st sel s = Inr st'"
  shows "selected_ids st' = Some (ids \<union> set sel) \<and> selection st' = None \<and> heap st' = heap st \<and>
         modified st' = modified st"
  using assms by (auto simp: apply_selection_def print_def Let_def split: sum.splits)

lemma apply_selection_ok:
  "(\<exists>st'. apply_selection st sel s = Inr st') = (\<exists>m. report_selection (heap st) sel s = Inr m)"
  by (auto simp: apply_selection_def print_def Let_def split: sum.splits option.splits)

lemma selection_of_None_iff:
  "(selection_of env h arg = None) =
     (mselcomp arg = None \<and> mseltag arg = None \<and> \<not> (mset arg = None \<and> msetbool arg = None))"
  by (simp add: selection_of_def split: option.splits)

lemma process_selection:
  "selection_of env (heap st) arg = Some r \<Longrightarrow>
   process_arg env st arg = (case r of Inl e \<Rightarrow> Inl e | Inr sel \<Rightarrow> apply_selection st sel arg)"
  by (simp add: process_arg_def split: sum.splits)

lemma process_selection_ok:
  assumes "selection_of env (heap st) arg \<noteq> None"
  shows "(\<exists>st'. process_arg env st arg = Inr st') =
         (\<exists>sel m. selection_of env (heap st) arg = Some (Inr sel) \<and>
                  report_selection (heap st) sel arg = Inr m)"
proof -
  from assms obtain r where r: "selection_of env (heap st) arg = Some r" by auto
  show ?thesis
  proof (cases r)
    case (Inl e)
    with r show ?thesis by (simp add: process_selection)
  next
    case (Inr sel)
    with r show ?thesis by (simp add: process_selection apply_selection_ok)
  qed
qed

lemma process_selection_fresh:
  assumes "selection_of env (heap st) arg \<noteq> None"
      and "selection st \<noteq> None \<or> selected_ids st = None"
      and "process_arg env st arg = Inr st'"
  shows "selected_ids st' = Some (match_set env (heap st) arg) \<and> selection st' = None \<and>
         heap st' = heap st \<and> modified st' = modified st"
proof -
  from assms(1) obtain r where r: "selection_of env (heap st) arg = Some r" by auto
  with assms(3) obtain sel where s: "r = Inr sel" "apply_selection st sel arg = Inr st'"
    by (cases r) (simp_all add: process_selection)
  from apply_selection_fresh [OF assms(2) s(2)] r s(1) show ?thesis
    by (simp add: match_set_def)
qed

lemma process_selection_more:
  assumes "selection_of env (heap st) arg \<noteq> None"
      and "selection st = None" and "selected_ids st = Some ids"
      and "process_arg env st arg = Inr st'"
  shows "selected_ids st' = Some (ids \<union> match_set env (heap st) arg) \<and> selection st' = None \<and>
         heap st' = heap st \<and> modified st' = modified st"
proof -
  from assms(1) obtain r where r: "selection_of env (heap st) arg = Some r" by auto
  with assms(4) obtain sel where s: "r = Inr sel" "apply_selection st sel arg = Inr st'"
    by (cases r) (simp_all add: process_selection)
  from apply_selection_more [OF assms(2,3) s(2)] r s(1) show ?thesis
    by (simp add: match_set_def)
qed

lemma run_selections_more:
  assumes "\<forall>a\<in>set args. selection_of env (heap st) a \<noteq> None"
      and "selection st = None" and "selected_ids st = Some ids"
      and "run env st args = Inr st'"
  shows "selected_ids st' = Some (ids \<union> (\<Union>a\<in>set args. match_set env (heap st) a)) \<and>
         selection st' = None \<and> heap st' = heap st \<and> modified st' = modified st"
  using assms
proof (induction args arbitrary: st ids)
  case Nil
  then show ?case by simp
next
  case (Cons a args)
  from Cons.prems(4) obtain st1 where
    st1: "process_arg env st a = Inr st1" and rest: "run env st1 args = Inr st'"
    by (auto split: sum.splits)
  from Cons.prems(1) have sa: "selection_of env (heap st) a \<noteq> None" by simp
  note p = process_selection_more [OF sa Cons.prems(2,3) st1]
  from Cons.prems(1) p have all: "\<forall>b\<in>set args. selection_of env (heap st1) b \<noteq> None"
    by simp
  from Cons.IH [OF all _ _ rest, of "ids \<union> match_set env (heap st) a"] p
  show ?case by (simp add: Un_assoc)
qed

lemma run_selections_fresh:
  assumes "\<forall>a\<in>set args. selection_of env (heap st) a \<noteq> None"
      and "args \<noteq> []"
      and "selection st \<noteq> None \<or> selected_ids st = None"
      and "run env st args = Inr st'"
  shows "selected_ids st' = Some (\<Union>a\<in>set args. match_set env (heap st) a) \<and>
         selection st' = None \<and> heap st' = heap st \<and> modified st' = modified st"
proof -
  from assms(2) obtain a rest where args: "args = a # rest" by (cases args) auto
  with assms(4) obtain st1 where
    st1: "process_arg env st a = Inr st1" and rest: "run env st1 rest = Inr st'"
    by (auto split: sum.splits)
  from assms(1) args have sa: "selection_of env (heap st) a \<noteq> None" by simp
  note p = process_selection_fresh [OF sa assms(3) st1]
  from assms(1) args p have all: "\<forall>b\<in>set rest. selection_of env (heap st1) b \<noteq> None"
    by simp
  from run_selections_more [OF all _ _ rest, of "match_set env (heap st) a"] p args
  show ?thesis by simp
qed

lemma run_selections_ok:
  assumes "\<forall>a\<in>set args. selection_of env (heap st) a \<noteq> None"
  shows "(\<exists>st'. run env st args = Inr st') =
         (\<forall>a\<in>set args. \<exists>sel m. selection_of env (heap st) a = Some (Inr sel) \<and>
                                  report_selection (heap st) sel a = Inr m)"
  using assms
proof (induction args arbitrary: st)
  case Nil
  then show ?case by simp
next
  case (Cons a args)
  from Cons.prems have sa: "selection_of env (heap st) a \<noteq> None" by simp
  show ?case
  proof (cases "process_arg env st a")
    case (Inl e)
    with process_selection_ok [OF sa] show ?thesis by auto
  next
    case (Inr st1)
    have h: "heap st1 = heap st"
    proof (cases "selection st \<noteq> None \<or> selected_ids st = None")
      case True
      from process_selection_fresh [OF sa True Inr] show ?thesis by simp
    next
      case False
      then obtain ids where "selection st = None" "selected_ids st = Some ids" by auto
      from process_selection_more [OF sa this Inr] show ?thesis by simp
    qed
    from Cons.prems h have all: "\<forall>b\<in>set args. selection_of env (heap st1) b \<noteq> None"
      by simp
    from Inr process_selection_ok [OF sa] have oka:
      "\<exists>sel m. selection_of env (heap st) a = Some (Inr sel) \<and>
               report_selection (heap st) sel a = Inr m" by auto
    from Cons.IH [OF all] Inr h oka show ?thesis by simp
  qed
qed

text \<open>
  Claim C4: selection arguments that follow one another from the start of a cycle (nothing
  selected yet, or the previous selection already used for tagging) leave in
  \<^verbatim>\<open>selected_ids\<close> the union of what each of them matches, and the same arguments in
  any other order leave the same set.
\<close>

theorem selections_accumulate_union:
  assumes "\<forall>a\<in>set args. selection_of env (heap st) a \<noteq> None"
      and "args \<noteq> []"
      and "selection st \<noteq> None \<or> selected_ids st = None"
      and "run env st args = Inr st'"
  shows "selected_ids st' = Some (\<Union>a\<in>set args. match_set env (heap st) a) \<and>
         (\<forall>args'. set args' = set args \<longrightarrow>
            (\<exists>st''. run env st args' = Inr st'' \<and> selected_ids st'' = selected_ids st'))"
proof -
  note first = run_selections_fresh [OF assms]
  have "\<exists>st''. run env st args' = Inr st'' \<and> selected_ids st'' = selected_ids st'"
    if eq: "set args' = set args" for args'
  proof -
    from eq assms(1) have all': "\<forall>a\<in>set args'. selection_of env (heap st) a \<noteq> None" by simp
    from eq assms(2) have ne: "args' \<noteq> []" by auto
    from assms(4) run_selections_ok [OF assms(1)] eq run_selections_ok [OF all']
    obtain st'' where r: "run env st args' = Inr st''" by auto
    from run_selections_fresh [OF all' ne assms(3) r] first eq
    have "selected_ids st'' = selected_ids st'" by simp
    with r show ?thesis by blast
  qed
  with first show ?thesis by blast
qed

theorem selections_accumulate_union_witness:
  "\<exists>st'. run example_env (initial example_heap) [''ra<10d'', ''=dE''] = Inr st' \<and>
         selected_ids st' = Some {1, 2} \<and>
         (\<exists>st''. run example_env (initial example_heap) [''=dE'', ''ra<10d''] = Inr st'' \<and>
                 selected_ids st'' = selected_ids st')"
proof -
  let ?args = "[''ra<10d'', ''=dE'']"
  let ?h = "heap (initial example_heap)"
  have "\<exists>st'. run example_env (initial example_heap) ?args = Inr st'"
    by (simp add: regex_defs example_defs run_defs)
  then obtain st' where r: "run example_env (initial example_heap) ?args = Inr st'" ..
  have s1: "selection_of example_env ?h ''ra<10d'' \<noteq> None"
    by (simp add: regex_defs selection_of_def)
  have s2: "selection_of example_env ?h ''=dE'' \<noteq> None"
    by (simp add: regex_defs selection_of_def)
  from s1 s2 have sel: "\<forall>a\<in>set ?args. selection_of example_env ?h a \<noteq> None"
    by simp
  have ne: "?args \<noteq> []" by simp
  have fresh: "selection (initial example_heap) \<noteq> None \<or>
               selected_ids (initial example_heap) = None"
    by (simp add: initial_def)
  have m1: "match_set example_env ?h ''ra<10d'' = {1}"
    by (simp add: regex_defs example_defs run_defs)
  have m2: "match_set example_env ?h ''=dE'' = {2}"
    by (simp add: regex_defs example_defs run_defs)
  have sw: "set [''=dE'', ''ra<10d''] = set ?args"
    by (simp only: list.set insert_commute)
  note th = selections_accumulate_union [OF sel ne fresh r]
  from th have "selected_ids st' = Some (match_set example_env ?h ''ra<10d'' \<union>
                  match_set example_env ?h ''=dE'')"
    by (simp only: list.set UN_insert UN_empty Un_empty_right)
  then have u: "selected_ids st' = Some {1, 2}"
    by (simp only: m1 m2 insert_is_Un [symmetric])
  from th have "\<forall>args'. set args' = set ?args \<longrightarrow>
      (\<exists>st''. run example_env (initial example_heap) args' = Inr st'' \<and>
              selected_ids st'' = selected_ids st')"
    by (rule conjunct2)
  then have "set [''=dE'', ''ra<10d''] = set ?args \<longrightarrow>
      (\<exists>st''. run example_env (initial example_heap) [''=dE'', ''ra<10d''] = Inr st'' \<and>
              selected_ids st'' = selected_ids st')"
    by (rule spec)
  from this sw have o: "\<exists>st''. run example_env (initial example_heap) [''=dE'', ''ra<10d''] = Inr st'' \<and>
              selected_ids st'' = selected_ids st'"
    by (rule mp)
  from r u o show ?thesis by blast
qed

section \<open>Tagging commands and the frozen selection\<close>

lemma retrieve_selection_Inr:
  assumes "retrieve_selection env st = Inr (s, st1)"
  shows "s = materialized env st \<and> selection st1 = Some s \<and>
         selected_ids st1 = selected_ids st \<and> heap st1 = heap st \<and>
         modified st1 = modified st"
  using assms
  by (auto simp: retrieve_selection_def print_def Let_def
      split: option.splits if_splits sum.splits)

lemma msetbool_oper:
  "msetbool m = Some (oper, t) \<Longrightarrow> oper = ''+'' \<or> oper = ''!'' \<or> oper = ''/''"
  by (auto simp: msetbool_def split: list.splits if_splits option.splits)

lemma bool_action_defined:
  "msetbool m = Some (oper, t) \<Longrightarrow> \<exists>msg act. bool_action oper t = Some (msg, act)"
  by (drule msetbool_oper) (auto simp: bool_action_def)

lemma tagging_branch:
  assumes "selection_of env h m = None"
  shows "process_arg env st m =
           (case mset m of
              Some g \<Rightarrow> do_mset env st g
            | None \<Rightarrow> (case msetbool m of Some g \<Rightarrow> do_msetbool env st g | None \<Rightarrow> Inr st))
         \<and> (mset m \<noteq> None \<or> msetbool m \<noteq> None)"
proof -
  from assms have n: "selection_of env (heap st) m = None"
    by (simp add: selection_of_None_iff)
  from assms have "mset m \<noteq> None \<or> msetbool m \<noteq> None"
    by (simp add: selection_of_None_iff)
  with n show ?thesis
    by (simp add: process_arg_def)
qed

lemma do_mset_Inr:
  assumes "do_mset env st (tagname, typename, v) = Inr st'"
  shows "\<exists>st1. retrieve_selection env st = Inr (materialized env st, st1) \<and>
           selection st' = Some (materialized env st) \<and>
           selected_ids st' = selected_ids st \<and>
           (if opt_list env then st' = print MListIgnoring st1
            else (\<exists>newval. coerce (interp env) typename v = Inr newval \<and>
                   tag_sources (heap st) (materialized env st) tagname (SetAttr newval)
                     = Inr (heap st') \<and>
                   (materialized env st = [] \<longrightarrow> st' = print MNoSourcesIgnoring st1) \<and>
                   (materialized env st \<noteq> [] \<longrightarrow> modified st')))"
proof -
  from assms obtain s st1 where r: "retrieve_selection env st = Inr (s, st1)"
    by (auto simp: do_mset_def split: sum.splits)
  note k = retrieve_selection_Inr [OF r]
  from k have s: "s = materialized env st" by simp
  show ?thesis
  proof (cases "opt_list env")
    case True
    with assms r have "st' = print MListIgnoring st1" by (simp add: do_mset_def)
    with True r k show ?thesis by (simp add: print_def)
  next
    case False
    with assms r obtain newval where c: "coerce (interp env) typename v = Inr newval"
      by (auto simp: do_mset_def split: sum.splits)
    show ?thesis
    proof (cases "s = []")
      case True
      with assms r c False have "st' = print MNoSourcesIgnoring st1"
        by (simp add: do_mset_def)
      with True False r k c show ?thesis by (simp add: print_def)
    next
      case ne: False
      with assms r c False obtain h' where
        t: "tag_sources (heap st1) s tagname (SetAttr newval) = Inr h'" and
        e: "st' = (print (MSettingTag tagname (if type_name newval = ''str'' then quoted v else v)
                     (type_name newval)) st1)\<lparr>heap := h', modified := True\<rparr>"
        by (auto simp: do_mset_def Let_def print_def split: sum.splits)
      with ne False r k c show ?thesis by (simp add: print_def)
    qed
  qed
qed

lemma do_msetbool_Inr:
  assumes "do_msetbool env st (oper, tagname) = Inr st'"
      and "bool_action oper tagname = Some (msg, act)"
  shows "\<exists>st1. retrieve_selection env st = Inr (materialized env st, st1) \<and>
           selection st' = Some (materialized env st) \<and>
           selected_ids st' = selected_ids st \<and>
           (if opt_list env then st' = print MListIgnoring st1
            else (tag_sources (heap st) (materialized env st) tagname act = Inr (heap st') \<and>
                   (materialized env st = [] \<longrightarrow> st' = print MNoSourcesIgnoring st1) \<and>
                   (materialized env st \<noteq> [] \<longrightarrow> modified st')))"
proof -
  from assms obtain s st1 where r: "retrieve_selection env st = Inr (s, st1)"
    by (auto simp: do_msetbool_def split: sum.splits)
  note k = retrieve_selection_Inr [OF r]
  show ?thesis
  proof (cases "opt_list env")
    case True
    with assms r have "st' = print MListIgnoring st1" by (simp add: do_msetbool_def)
    with True r k show ?thesis by (simp add: print_def)
  next
    case False
    show ?thesis
    proof (cases "s = []")
      case True
      with assms r False have "st' = print MNoSourcesIgnoring st1"
        by (simp add: do_msetbool_def)
      with True False r k show ?thesis by (simp add: print_def)
    next
      case ne: False
      with assms r False obtain h' where
        t: "tag_sources (heap st1) s tagname act = Inr h'" and
        e: "st' = (print msg st1)\<lparr>heap := h', modified := True\<rparr>"
        by (auto simp: do_msetbool_def Let_def print_def split: sum.splits)
      with ne False r k show ?thesis by (simp add: print_def)
    qed
  qed
qed

lemma tagging_freezes:
  fixes env :: "'f env"
  assumes "selection_of env h m = None" and "process_arg env st m = Inr st'"
  shows "selection st' = Some (materialized env st) \<and> selected_ids st' = selected_ids st"
proof (cases "mset m")
  case (Some g)
  obtain tagname typename v where g: "g = (tagname, typename, v)" by (cases g) auto
  from tagging_branch [OF assms(1), of st] Some assms(2) g
  have "do_mset env st (tagname, typename, v) = Inr st'" by simp
  from do_mset_Inr [OF this] show ?thesis by blast
next
  case None
  with tagging_branch [OF assms(1), of st] obtain g where b: "msetbool m = Some g" by auto
  obtain oper tagname where g: "g = (oper, tagname)" by (cases g) auto
  from tagging_branch [OF assms(1), of st] None b assms(2) g
  have d: "do_msetbool env st (oper, tagname) = Inr st'" by simp
  from bool_action_defined b g obtain msg and act :: "'f action" where
    "bool_action oper tagname = Some (msg, act)" by blast
  from do_msetbool_Inr [OF d this] show ?thesis by blast
qed



lemma tagging_retrieves:
  fixes env :: "'f env"
  assumes "selection_of env h m = None" and "process_arg env st m = Inr st'"
  shows "\<exists>stm. retrieve_selection env st = Inr (materialized env st, stm)"
proof (cases "mset m")
  case (Some g)
  obtain tagname typename v where g: "g = (tagname, typename, v)" by (cases g) auto
  from tagging_branch [OF assms(1), of st] Some assms(2) g
  have "do_mset env st (tagname, typename, v) = Inr st'" by simp
  from do_mset_Inr [OF this] show ?thesis by blast
next
  case None
  with tagging_branch [OF assms(1), of st] obtain g where b: "msetbool m = Some g" by auto
  obtain oper tagname where g: "g = (oper, tagname)" by (cases g) auto
  from tagging_branch [OF assms(1), of st] None b assms(2) g
  have d: "do_msetbool env st (oper, tagname) = Inr st'" by simp
  from bool_action_defined b g obtain msg and act :: "'f action" where
    "bool_action oper tagname = Some (msg, act)" by blast
  from do_msetbool_Inr [OF d this] show ?thesis by blast
qed


lemma list_mode_tagging:
  fixes env :: "'f env"
  assumes "selection_of env h m = None" and "process_arg env st m = Inr st'"
      and "opt_list env"
  shows "heap st' = heap st \<and> modified st' = modified st"
proof (cases "mset m")
  case (Some g)
  obtain tagname typename v where g: "g = (tagname, typename, v)" by (cases g) auto
  from tagging_branch [OF assms(1), of st] Some assms(2) g
  have "do_mset env st (tagname, typename, v) = Inr st'" by simp
  from do_mset_Inr [OF this] assms(3) obtain st1 where
    "retrieve_selection env st = Inr (materialized env st, st1)" "st' = print MListIgnoring st1"
    by auto
  with retrieve_selection_Inr [OF this(1)] show ?thesis by (simp add: print_def)
next
  case None
  with tagging_branch [OF assms(1), of st] obtain g where b: "msetbool m = Some g" by auto
  obtain oper tagname where g: "g = (oper, tagname)" by (cases g) auto
  from tagging_branch [OF assms(1), of st] None b assms(2) g
  have d: "do_msetbool env st (oper, tagname) = Inr st'" by simp
  from bool_action_defined b g obtain msg and act :: "'f action" where
    a: "bool_action oper tagname = Some (msg, act)" by blast
  from do_msetbool_Inr [OF d a] assms(3) obtain st1 where
    "retrieve_selection env st = Inr (materialized env st, st1)" "st' = print MListIgnoring st1"
    by auto
  with retrieve_selection_Inr [OF this(1)] show ?thesis by (simp add: print_def)
qed

lemma selection_step_frame:
  assumes "selection_of env (heap st) a \<noteq> None" and "process_arg env st a = Inr st'"
  shows "heap st' = heap st \<and> modified st' = modified st"
proof (cases "selection st \<noteq> None \<or> selected_ids st = None")
  case True
  from process_selection_fresh [OF assms(1) True assms(2)] show ?thesis by simp
next
  case False
  then obtain ids where "selection st = None" "selected_ids st = Some ids" by auto
  from process_selection_more [OF assms(1) this assms(2)] show ?thesis by simp
qed

lemma list_mode_step:
  assumes "opt_list env" and "process_arg env st a = Inr st'"
  shows "heap st' = heap st \<and> modified st' = modified st"
proof (cases "selection_of env (heap st) a = None")
  case True
  from list_mode_tagging [OF True assms(2,1)] show ?thesis .
next
  case False
  from selection_step_frame [OF False assms(2)] show ?thesis .
qed

lemma list_mode_run:
  assumes "opt_list env" and "run env st args = Inr st'"
  shows "heap st' = heap st \<and> modified st' = modified st"
  using assms(2)
proof (induction args arbitrary: st)
  case Nil
  then show ?case by simp
next
  case (Cons a args)
  from Cons.prems obtain st1 where
    p: "process_arg env st a = Inr st1" and r: "run env st1 args = Inr st'"
    by (auto split: sum.splits)
  from list_mode_step [OF assms(1) p] Cons.IH [OF r] show ?case by simp
qed

lemma finish_unmodified:
  assumes "\<not> modified st"
  shows "\<exists>a. finish env skymodel st = Stopped a"
proof (cases "retrieve_selection env st")
  case (Inl e)
  then show ?thesis using assms
    by (auto simp: finish_def split: option.splits sum.splits)
next
  case (Inr p)
  obtain s st1 where p: "p = (s, st1)" by (cases p) auto
  from retrieve_selection_Inr [of env st s st1] Inr p assms have "\<not> modified st1" by simp
  with Inr p assms show ?thesis
    by (auto simp: finish_def split: option.splits sum.splits)
qed



text \<open>
  Claim C6: the selection a tagging command has materialized is still the frozen selection
  when the command is done, and the selection argument that comes next starts over:
  \<^verbatim>\<open>selected_ids\<close> is then what that argument matched and nothing more.
\<close>

theorem frozen_selection_then_reset:
  assumes "selection_of env (heap st) m = None"
      and "process_arg env st m = Inr st1"
      and "selection_of env (heap st1) a = Some (Inr sel)"
      and "process_arg env st1 a = Inr st2"
  shows "(\<exists>s stm. retrieve_selection env st = Inr (s, stm) \<and> selection stm = Some s \<and>
            selection st1 = Some s) \<and>
         selected_ids st2 = Some (set sel) \<and> selection st2 = None"
proof -
  from tagging_retrieves [OF assms(1,2)] obtain stm where
    r: "retrieve_selection env st = Inr (materialized env st, stm)" by blast
  from retrieve_selection_Inr [OF r] tagging_freezes [OF assms(1,2)]
  have a: "selection stm = Some (materialized env st) \<and>
           selection st1 = Some (materialized env st)" by simp
  from assms(3,4) have ap: "apply_selection st1 sel a = Inr st2"
    by (simp add: process_selection)
  from a have "selection st1 \<noteq> None \<or> selected_ids st1 = None" by simp
  from apply_selection_fresh [OF this ap] r a show ?thesis by blast
qed

theorem frozen_selection_then_reset_witness:
  "\<exists>st1 st2. process_arg example_env (initial example_heap) ''+x'' = Inr st1 \<and>
      process_arg example_env st1 ''B'' = Inr st2 \<and>
      selection st1 = Some [1, 2, 3] \<and>
      selected_ids st2 = Some {2} \<and> selection st2 = None"
proof -
  have "\<exists>st1. process_arg example_env (initial example_heap) ''+x'' = Inr st1 \<and>
          selection st1 = Some [1, 2, 3] \<and>
          selection_of example_env (heap st1) ''B'' = Some (Inr [2]) \<and>
          (\<exists>st2. process_arg example_env st1 ''B'' = Inr st2)"
    by (simp add: regex_defs example_defs run_defs)
  then obtain st1 st2 where
    p1: "process_arg example_env (initial example_heap) ''+x'' = Inr st1" and
    s1: "selection st1 = Some [1, 2, 3]" and
    so: "selection_of example_env (heap st1) ''B'' = Some (Inr [2])" and
    p2: "process_arg example_env st1 ''B'' = Inr st2" by blast
  have t: "selection_of example_env (heap (initial example_heap)) ''+x'' = None"
    by (simp add: regex_defs selection_of_def)
  from frozen_selection_then_reset [OF t p1 so p2]
  have "selected_ids st2 = Some (set [2]) \<and> selection st2 = None" by blast
  with p1 p2 s1 show ?thesis by auto
qed

text \<open>
  Claim C7 says that every tagging command met with an empty materialized selection is
  skipped with a notice and that the run goes on. An assignment converts its value
  before it looks at the selection: after \<^verbatim>\<open>NonExistentName*\<close> has selected nothing,
  \<^verbatim>\<open>dE=bool:xyz\<close> ends the run with status 2.
\<close>

theorem empty_selection_counterexample:
  "run example_env (initial example_heap) [''NonExistentName*'', ''dE=bool:xyz'']
     = Inl (Exit 2 (MCantParse ''xyz'' ''bool'')) \<and>
   (case run example_env (initial example_heap) [''NonExistentName*''] of
      Inl e \<Rightarrow> False
    | Inr st \<Rightarrow>
        (case retrieve_selection example_env st of
           Inl e \<Rightarrow> False
         | Inr (s, st1) \<Rightarrow> s = []))"
  by (simp add: regex_defs example_defs run_defs)

text \<open>
  Claim C7 as amended: a tagging command met with an empty materialized selection changes
  no object and not the modified flag, prints a notice and lets the run go on, provided
  that \<^verbatim>\<open>--list\<close> is in effect (the notice is then the one of \<^verbatim>\<open>--list\<close>) or that the
  command is a boolean or removal command or an assignment whose value converts.
\<close>

theorem empty_selection_skips_tagging:
  assumes tag: "selection_of env (heap st) m = None"
      and empty: "retrieve_selection env st = Inr ([], st1)"
      and ok: "opt_list env \<or>
               (\<forall>tagname typename v. mset m = Some (tagname, typename, v) \<longrightarrow>
                  (\<exists>newval. coerce (interp env) typename v = Inr newval))"
  shows "\<exists>st'. process_arg env st m = Inr st' \<and> heap st' = heap st \<and>
           modified st' = modified st \<and>
           out st' = out st1 @ [if opt_list env then MListIgnoring else MNoSourcesIgnoring]"
proof -
  note k = retrieve_selection_Inr [OF empty]
  note b = tagging_branch [OF tag, of st]
  show ?thesis
  proof (cases "mset m")
    case (Some g)
    obtain tagname typename v where g: "g = (tagname, typename, v)" by (cases g) auto
    show ?thesis
    proof (cases "opt_list env")
      case True
      with b Some g empty k show ?thesis by (simp add: do_mset_def print_def)
    next
      case False
      with ok Some g obtain newval where "coerce (interp env) typename v = Inr newval"
        by auto
      with False b Some g empty k show ?thesis by (simp add: do_mset_def print_def)
    qed
  next
    case None
    with b obtain g where mb: "msetbool m = Some g" by auto
    obtain oper tagname where g: "g = (oper, tagname)" by (cases g) auto
    from b None mb g empty k show ?thesis by (simp add: do_msetbool_def print_def)
  qed
qed

theorem empty_selection_skips_tagging_witness:
  "\<exists>st st1. run example_env (initial example_heap) [''NonExistentName*''] = Inr st \<and>
      retrieve_selection example_env st = Inr ([], st1) \<and>
      (\<exists>st'. process_arg example_env st ''+dE'' = Inr st' \<and> heap st' = heap st \<and>
             modified st' = modified st \<and> out st' = out st1 @ [MNoSourcesIgnoring])"
proof -
  have "\<exists>st. run example_env (initial example_heap) [''NonExistentName*''] = Inr st \<and>
             (\<exists>st1. retrieve_selection example_env st = Inr ([], st1))"
    by (simp add: regex_defs example_defs run_defs)
  then obtain st st1 where
    r: "run example_env (initial example_heap) [''NonExistentName*''] = Inr st" and
    e: "retrieve_selection example_env st = Inr ([], st1)" by blast
  have t: "selection_of example_env (heap st) ''+dE'' = None"
    by (simp add: regex_defs selection_of_def)
  have n: "mset ''+dE'' = None" by (simp add: regex_defs)
  have l: "\<not> opt_list example_env" by (simp add: example_env_def)
  from n have ok: "opt_list example_env \<or>
       (\<forall>tagname typename v. mset ''+dE'' = Some (tagname, typename, v) \<longrightarrow>
          (\<exists>newval. coerce (interp example_env) typename v = Inr newval))"
    by simp
  from empty_selection_skips_tagging [OF t e ok] l r e show ?thesis by auto
qed

text \<open>
  Claim C10: with \<^verbatim>\<open>--list\<close> in effect no argument changes an object, the modified flag
  is false after every argument, and the run ends without saving the model.
\<close>

theorem list_mode_never_modifies:
  assumes "opt_list env"
  shows "(\<forall>n st. run env (initial h) (take n args) = Inr st \<longrightarrow>
            heap st = h \<and> \<not> modified st) \<and>
         (\<exists>a. main env h (skymodel # args) = Stopped a)"
proof -
  have inv: "heap st = h \<and> \<not> modified st" if "run env (initial h) xs = Inr st" for xs st
    using list_mode_run [OF assms that] by (simp add: initial_def)
  have "\<exists>a. main env h (skymodel # args) = Stopped a"
  proof (cases "run env (initial h) args")
    case (Inl e)
    then show ?thesis by (simp add: main_def)
  next
    case (Inr st)
    from inv [OF Inr] have "\<not> modified st" by simp
    from finish_unmodified [OF this, of env skymodel] Inr show ?thesis
      by (auto simp: main_def)
  qed
  with inv show ?thesis by blast
qed

theorem list_mode_never_modifies_witness:
  "opt_list example_list_env \<and>
   (\<exists>st. run example_list_env (initial example_heap) [''A*'', ''+dE''] = Inr st \<and>
         heap st = example_heap \<and> \<not> modified st) \<and>
   (\<exists>a. main example_list_env example_heap [''model.lsm'', ''A*'', ''+dE''] = Stopped a)"
proof -
  have l: "opt_list example_list_env"
    by (simp add: example_list_env_def)
  have "\<exists>st. run example_list_env (initial example_heap) [''A*'', ''+dE''] = Inr st"
    by (simp add: regex_defs example_defs run_defs)
  then obtain st where
    r: "run example_list_env (initial example_heap) (take 2 [''A*'', ''+dE'']) = Inr st"
    by auto
  note th = list_mode_never_modifies [OF l, of example_heap "[''A*'', ''+dE'']" "''model.lsm''"]
  from th r have "heap st = example_heap \<and> \<not> modified st" by blast
  moreover from th
  have "\<exists>a. main example_list_env example_heap [''model.lsm'', ''A*'', ''+dE''] = Stopped a"
    by (rule conjunct2)
  moreover from r have "run example_list_env (initial example_heap) [''A*'', ''+dE''] = Inr st"
    by simp
  ultimately show ?thesis using l by blast
qed

section \<open>Operators and their FORTRAN-style spellings\<close>

lemma ci_prefix_Nil: "ci_prefix [] r = True"
  by (simp add: ci_prefix_def lower_def)

lemma ci_prefix_Cons_Nil: "ci_prefix (a # k) [] = False"
  by (simp add: ci_prefix_def)

lemma ci_prefix_Cons:
  "ci_prefix (a # k) (b # r) = (lower_char b = lower_char a \<and> ci_prefix k r)"
  by (auto simp: ci_prefix_def lower_def)

lemmas ci_prefix_simps = ci_prefix_Nil ci_prefix_Cons_Nil ci_prefix_Cons

lemma lower_char_cases:
  "lower_char c = c \<or> lower_char c \<in> set ''abcdefghijklmnopqrstuvwxyz''"
  by (simp add: lower_char_def)

lemma lower_char_dot: "(lower_char c = CHR ''.'') = (c = CHR ''.'')"
  using lower_char_cases [of c] by (auto simp: lower_char_def)

lemma lower_char_eq_sign: "(lower_char c = CHR ''='') = (c = CHR ''='')"
  using lower_char_cases [of c] by (auto simp: lower_char_def)

lemma lower_char_fixed:
  "lower_char CHR ''='' = CHR ''=''" "lower_char CHR ''!'' = CHR ''!''"
  "lower_char CHR ''<'' = CHR ''<''" "lower_char CHR ''>'' = CHR ''>''"
  "lower_char CHR ''.'' = CHR ''.''" "lower_char CHR ''e'' = CHR ''e''"
  "lower_char CHR ''q'' = CHR ''q''" "lower_char CHR ''n'' = CHR ''n''"
  "lower_char CHR ''g'' = CHR ''g''" "lower_char CHR ''l'' = CHR ''l''"
  "lower_char CHR ''t'' = CHR ''t''"
  by (simp_all add: lower_char_def)

lemma sel_value_start:
  assumes "rest \<noteq> []" and "not_dms (hd rest)"
  shows "\<exists>v u. sel_value rest = Some (v, u)"
proof -
  from assms obtain c r where "rest = c # r" "not_dms c" by (cases rest) auto
  then show ?thesis by (simp add: sel_value_def)
qed

lemma try_ops_symbol:
  assumes v: "sel_value rest = Some (v, u)"
      and single: "symb = ''<'' \<or> symb = ''>'' \<longrightarrow> hd rest \<noteq> CHR ''=''"
      and symb: "symb \<in> set [''=='', ''!='', ''<'', ''<='', ''>'', ''>='']"
  shows "try_ops (map fst select_predicates) (symb @ rest) = Some (symb, v, u)"
proof -
  from v obtain c r where rest: "rest = c # r"
    by (cases rest) (auto simp: sel_value_def)
  from symb consider "symb = ''==''" | "symb = ''!=''" | "symb = ''<''" | "symb = ''<=''"
    | "symb = ''>''" | "symb = ''>=''" by auto
  then show ?thesis
  proof cases
    case 1
    with v show ?thesis
      by (simp add: select_predicates_def ci_prefix_simps lower_char_fixed)
  next
    case 2
    with v show ?thesis
      by (simp add: select_predicates_def ci_prefix_simps lower_char_fixed)
  next
    case 3
    with v single rest show ?thesis
      by (simp add: select_predicates_def ci_prefix_simps lower_char_fixed lower_char_eq_sign)
  next
    case 4
    with v show ?thesis
      by (simp add: select_predicates_def ci_prefix_simps lower_char_fixed)
  next
    case 5
    with v single rest show ?thesis
      by (simp add: select_predicates_def ci_prefix_simps lower_char_fixed lower_char_eq_sign)
  next
    case 6
    with v show ?thesis
      by (simp add: select_predicates_def ci_prefix_simps lower_char_fixed)
  qed
qed

lemma lower_four:
  assumes "lower s = [w, x, y, z]"
  shows "\<exists>a b c d. s = [a, b, c, d] \<and> lower_char a = w \<and> lower_char b = x \<and>
           lower_char c = y \<and> lower_char d = z"
  using assms by (auto simp: lower_def map_eq_Cons_conv)

lemma try_ops_alias:
  assumes v: "sel_value rest = Some (v, u)"
      and low: "lower spelled = dotted"
      and known: "dotted \<in> set [''.eq.'', ''.ne.'', ''.lt.'', ''.le.'', ''.gt.'', ''.ge.'']"
  shows "try_ops (map fst select_predicates) (spelled @ rest) = Some (spelled, v, u)"
proof -
  from known obtain x y where al: "dotted = [CHR ''.'', x, y, CHR ''.'']"
    and xy: "[x, y] \<in> set [''eq'', ''ne'', ''lt'', ''le'', ''gt'', ''ge'']" by auto
  from lower_four [of spelled] low al obtain a b c d where
    s: "spelled = [a, b, c, d]" and
    l: "lower_char a = CHR ''.''" "lower_char b = x" "lower_char c = y" "lower_char d = CHR ''.''"
    by auto
  from xy consider "x = CHR ''e'' \<and> y = CHR ''q''" | "x = CHR ''n'' \<and> y = CHR ''e''"
    | "x = CHR ''l'' \<and> y = CHR ''t''" | "x = CHR ''l'' \<and> y = CHR ''e''"
    | "x = CHR ''g'' \<and> y = CHR ''t''" | "x = CHR ''g'' \<and> y = CHR ''e''" by auto
  then show ?thesis
    using v s l
    by cases
      (simp_all add: select_predicates_def ci_prefix_simps lower_char_fixed)
qed

lemma pair_cases:
  assumes "(symb, dotted) \<in> set [(''=='', ''.eq.''), (''!='', ''.ne.''), (''<'', ''.lt.''),
             (''<='', ''.le.''), (''>'', ''.gt.''), (''>='', ''.ge.'')]"
  shows "symb = ''=='' \<and> dotted = ''.eq.'' \<or> symb = ''!='' \<and> dotted = ''.ne.'' \<or>
         symb = ''<'' \<and> dotted = ''.lt.'' \<or> symb = ''<='' \<and> dotted = ''.le.'' \<or>
         symb = ''>'' \<and> dotted = ''.gt.'' \<or> symb = ''>='' \<and> dotted = ''.ge.''"
  using assms by (simp only: list.set insert_iff empty_iff prod.inject simp_thms)

lemma try_tag_found:
  assumes "tag \<noteq> []"
      and "try_ops (map fst select_predicates) r = Some (oper, v, u)"
  shows "try_tag (length tag) (tag @ r) = Some (tag, oper, v, u)"
proof -
  from assms(1) obtain n where n: "length tag = Suc n" by (cases tag) auto
  then have d: "drop (Suc n) (tag @ r) = r" and t: "take (Suc n) (tag @ r) = tag"
    by simp_all
  have "try_tag (Suc n) (tag @ r) = Some (tag, oper, v, u)"
    by (simp only: try_tag.simps d t assms(2) option.case prod.case)
  with n show ?thesis by simp
qed

lemma mselcomp_found:
  assumes tag: "tag \<noteq> []" "\<forall>c\<in>set tag. c \<notin> set ''=<>!.''"
      and r: "r \<noteq> []" "hd r \<in> set ''=<>!.''"
      and ops: "try_ops (map fst select_predicates) r = Some (oper, v, u)"
  shows "mselcomp (tag @ r) = Some (tag, oper, v, u)"
proof -
  from r obtain x r' where xr: "r = x # r'" "x \<in> set ''=<>!.''" by (cases r) auto
  from tag(2) have "takeWhile (\<lambda>c. c \<notin> set ''=<>!.'') (tag @ r)
        = tag @ takeWhile (\<lambda>c. c \<notin> set ''=<>!.'') r"
    by (intro takeWhile_append2) simp
  also from xr have "takeWhile (\<lambda>c. c \<notin> set ''=<>!.'') r = []" by simp
  finally have "mselcomp (tag @ r) = try_tag (length tag) (tag @ r)"
    by (simp add: mselcomp_def)
  with try_tag_found [OF tag(1) ops] show ?thesis by simp
qed

lemma comp_sel_same_predicate:
  assumes "map_of select_predicates (lower o1) = Some p"
      and "map_of select_predicates (lower o2) = Some p"
  shows "(comp_sel env h a1 (tag, o1, v, u) = Inr sel) =
         (comp_sel env h a2 (tag, o2, v, u) = Inr sel)"
  using assms by (simp add: comp_sel_def Let_def split: option.splits)

lemma alias_predicate:
  assumes "(symb, dotted) \<in> set [(''=='', ''.eq.''), (''!='', ''.ne.''), (''<'', ''.lt.''),
             (''<='', ''.le.''), (''>'', ''.gt.''), (''>='', ''.ge.'')]"
  shows "\<exists>p. map_of select_predicates (lower symb) = Some p \<and>
             map_of select_predicates dotted = Some p"
  using pair_cases [OF assms]
  by (elim disjE conjE) (simp_all add: select_predicates_def lower_def lower_char_fixed)

text \<open>
  Claim C8: a comparison written with a symbolic operator and the same comparison written
  with the FORTRAN-style spelling of that operator, in any letter case, select the same
  sources of every catalog. The argument is a tag without \<^verbatim>\<open>=<>!.\<close>, the operator and a
  right-hand side that starts with a character other than d, m, s; after \<^verbatim>\<open><\<close> and
  \<^verbatim>\<open>>\<close> the right-hand side does not start with \<^verbatim>\<open>=\<close>, which would make the operator
  \<^verbatim>\<open><=\<close> or \<^verbatim>\<open>>=\<close>.
\<close>

theorem alias_selects_same_sources:
  assumes pair: "(symb, dotted) \<in> set [(''=='', ''.eq.''), (''!='', ''.ne.''), (''<'', ''.lt.''),
                   (''<='', ''.le.''), (''>'', ''.gt.''), (''>='', ''.ge.'')]"
      and spelled: "lower spelled = dotted"
      and tag: "tag \<noteq> []" "\<forall>c\<in>set tag. c \<notin> set ''=<>!.''"
      and val: "rest \<noteq> []" "not_dms (hd rest)"
      and single: "symb = ''<'' \<or> symb = ''>'' \<longrightarrow> hd rest \<noteq> CHR ''=''"
  shows "(\<exists>v u. mselcomp (tag @ symb @ rest) = Some (tag, symb, v, u) \<and>
                mselcomp (tag @ spelled @ rest) = Some (tag, spelled, v, u)) \<and>
         (\<forall>sel. (selection_of env h (tag @ symb @ rest) = Some (Inr sel)) =
                 (selection_of env h (tag @ spelled @ rest) = Some (Inr sel))) \<and>
         match_set env h (tag @ symb @ rest) = match_set env h (tag @ spelled @ rest)"
proof -
  from sel_value_start [OF val] obtain v u where v: "sel_value rest = Some (v, u)" by blast
  note pc = pair_cases [OF pair]
  from pc have s_in: "symb \<in> set [''=='', ''!='', ''<'', ''<='', ''>'', ''>='']"
    by (elim disjE conjE) simp_all
  from pc have d_in: "dotted \<in> set [''.eq.'', ''.ne.'', ''.lt.'', ''.le.'', ''.gt.'', ''.ge.'']"
    by (elim disjE conjE) simp_all
  note o1 = try_ops_symbol [OF v single s_in]
  note o2 = try_ops_alias [OF v spelled d_in]
  from pc have h1: "symb @ rest \<noteq> [] \<and> hd (symb @ rest) \<in> set ''=<>!.''"
    by (elim disjE conjE) simp_all
  then have h1a: "symb @ rest \<noteq> []" and h1b: "hd (symb @ rest) \<in> set ''=<>!.''"
    by (rule conjunct1, rule conjunct2)
  from pc have "\<exists>x y. dotted = [CHR ''.'', x, y, CHR ''.'']"
    by (elim disjE conjE) simp_all
  then obtain x y where "dotted = [CHR ''.'', x, y, CHR ''.'']" by blast
  with spelled have "lower spelled = [CHR ''.'', x, y, CHR ''.'']" by simp
  from lower_four [OF this] obtain a b c d where
    "spelled = [a, b, c, d]" "lower_char a = CHR ''.''" by blast
  then have h2: "spelled @ rest \<noteq> []" "hd (spelled @ rest) \<in> set ''=<>!.''"
    by (simp_all add: lower_char_dot)
  note m1 = mselcomp_found [OF tag h1a h1b o1]
  note m2 = mselcomp_found [OF tag h2 o2]
  from alias_predicate [OF pair] obtain p where
    "map_of select_predicates (lower symb) = Some p"
    "map_of select_predicates dotted = Some p" by blast
  with spelled have
    p: "map_of select_predicates (lower symb) = Some p"
       "map_of select_predicates (lower spelled) = Some p" by simp_all
  let ?a1 = "tag @ symb @ rest" and ?a2 = "tag @ spelled @ rest"
  let ?c1 = "comp_sel env h ?a1 (tag, symb, v, u)"
  let ?c2 = "comp_sel env h ?a2 (tag, spelled, v, u)"
  from m1 have s1: "selection_of env h ?a1 = Some ?c1"
    by (simp only: selection_of_def option.case)
  from m2 have s2: "selection_of env h ?a2 = Some ?c2"
    by (simp only: selection_of_def option.case)
  have ceq: "(?c1 = Inr sel) = (?c2 = Inr sel)" for sel
    by (rule comp_sel_same_predicate [OF p])
  have eq: "(selection_of env h ?a1 = Some (Inr sel)) =
            (selection_of env h ?a2 = Some (Inr sel))" for sel
    by (simp only: s1 s2 option.inject ceq)
  have ms: "match_set env h ?a1 = match_set env h ?a2"
  proof (cases ?c1)
    case (Inl e)
    with ceq have "\<And>sel. ?c2 \<noteq> Inr sel" by simp
    then obtain e' where "?c2 = Inl e'" by (cases ?c2) auto
    with Inl show ?thesis by (simp only: match_set_def s1 s2 option.case sum.case)
  next
    case (Inr sel)
    with ceq [of sel] have "?c2 = Inr sel" by simp
    with Inr show ?thesis by (simp only: match_set_def s1 s2 option.case sum.case)
  qed
  from m1 m2 have "\<exists>v u. mselcomp ?a1 = Some (tag, symb, v, u) \<and>
                        mselcomp ?a2 = Some (tag, spelled, v, u)"
    by (intro exI conjI)
  moreover from eq have "\<forall>sel. (selection_of env h ?a1 = Some (Inr sel)) =
                              (selection_of env h ?a2 = Some (Inr sel))"
    by (intro allI)
  ultimately show ?thesis using ms by (intro conjI)
qed

theorem alias_selects_same_sources_witness:
  "mselcomp ''ra>10d'' = Some (''ra'', ''>'', ''10'', Some ''d'') \<and>
   mselcomp ''ra.GT.10d'' = Some (''ra'', ''.GT.'', ''10'', Some ''d'') \<and>
   selection_of example_env example_heap ''ra>10d'' = Some (Inr [2, 3]) \<and>
   selection_of example_env example_heap ''ra.GT.10d'' = Some (Inr [2, 3]) \<and>
   match_set example_env example_heap ''ra>10d'' =
     match_set example_env example_heap ''ra.GT.10d''"
proof -
  have pair: "(''>'', ''.gt.'') \<in> set [(''=='', ''.eq.''), (''!='', ''.ne.''), (''<'', ''.lt.''),
                   (''<='', ''.le.''), (''>'', ''.gt.''), (''>='', ''.ge.'')]" by simp
  have spelled: "lower ''.GT.'' = ''.gt.''" by (simp add: lower_def lower_char_def)
  have tag: "''ra'' \<noteq> []" "\<forall>c\<in>set ''ra''. c \<notin> set ''=<>!.''" by simp_all
  have val: "''10d'' \<noteq> []" "not_dms (hd ''10d'')"
    by (simp_all add: not_dms_def lower_char_def)
  have single: "''>'' = ''<'' \<or> ''>'' = ''>'' \<longrightarrow> hd ''10d'' \<noteq> CHR ''=''" by simp
  note th = alias_selects_same_sources
    [OF pair spelled tag val single, of example_env example_heap]
  have e1: "''ra'' @ ''>'' @ ''10d'' = ''ra>10d''" by simp
  have e2: "''ra'' @ ''.GT.'' @ ''10d'' = ''ra.GT.10d''" by simp
  have a: "selection_of example_env example_heap ''ra>10d'' = Some (Inr [2, 3])"
    by (simp add: regex_defs example_defs run_defs)
  have m: "mselcomp ''ra>10d'' = Some (''ra'', ''>'', ''10'', Some ''d'')"
    "mselcomp ''ra.GT.10d'' = Some (''ra'', ''.GT.'', ''10'', Some ''d'')"
    by (simp_all add: regex_defs)
  from th have "\<forall>sel. (selection_of example_env example_heap (''ra'' @ ''>'' @ ''10d'')
                          = Some (Inr sel)) =
                       (selection_of example_env example_heap (''ra'' @ ''.GT.'' @ ''10d'')
                          = Some (Inr sel))"
    by (rule conjunct1 [OF conjunct2])
  then have "(selection_of example_env example_heap (''ra'' @ ''>'' @ ''10d'')
                = Some (Inr [2, 3])) =
             (selection_of example_env example_heap (''ra'' @ ''.GT.'' @ ''10d'')
                = Some (Inr [2, 3]))"
    by (rule spec)
  with a have b: "selection_of example_env example_heap ''ra.GT.10d'' = Some (Inr [2, 3])"
    by (simp only: e1 e2 simp_thms)
  from th have "match_set example_env example_heap (''ra'' @ ''>'' @ ''10d'')
                 = match_set example_env example_heap (''ra'' @ ''.GT.'' @ ''10d'')"
    by (rule conjunct2 [OF conjunct2])
  then have c: "match_set example_env example_heap ''ra>10d'' =
                match_set example_env example_heap ''ra.GT.10d''"
    by (simp only: e1 e2)
  from m a b c show ?thesis by (intro conjI)
qed

end
